theory Spec2Isabelle
  imports Complex_Main
begin

section \<open>The clipboard fixer (fix_clipboard.py)\<close>

text \<open>
  The program polls the macOS general pasteboard. When the pasteboard holds an image
  (TIFF or PNG) together with plain text and no file reference, it clears the pasteboard
  and writes the image back alone.

  The model is a shallow embedding of the three functions \<open>get_clipboard_contents\<close>,
  \<open>has_image_and_text\<close>, \<open>copy_image_only\<close>, of the loop of \<open>main\<close> and of the
  script's entry point. Every call the program makes to the outside (AppKit, the logger,
  \<open>print\<close>, \<open>time.sleep\<close>) is an event appended to a trace, in the order of the source.
\<close>

subsection \<open>Identifiers, payloads and the pasteboard\<close>

type_synonym payload = string
  \<comment> \<open>the bytes of one pasteboard entry; plain text is its bytes\<close>

type_synonym board = "(string \<times> payload) list"
  \<comment> \<open>the entries of the pasteboard in order: identifier and payload\<close>

text \<open>
  Modelled from the spec: the identifier constants of AppKit (section 3, ContentTypeSet:
  the two image identifiers, the plain-text identifier and the modern file-URL
  identifier). The repository imports them from AppKit and does not define them. The
  values are the uniform type identifiers AppKit gives them; the docstring of
  \<open>get_clipboard_contents\<close> quotes two of them. The legacy identifier
  \<open>public.file-path\<close> is a literal of the source.
\<close>

definition NSPasteboardTypeTIFF :: string where
  "NSPasteboardTypeTIFF = ''public.tiff''"

definition NSPasteboardTypePNG :: string where
  "NSPasteboardTypePNG = ''public.png''"

definition NSPasteboardTypeString :: string where
  "NSPasteboardTypeString = ''public.utf8-plain-text''"

definition NSPasteboardTypeFileURL :: string where
  "NSPasteboardTypeFileURL = ''public.file-url''"

subsection \<open>Events, exceptions and the state\<close>

datatype pb_call =
    GeneralPasteboard
  | Types
  | StringForType string
  | DataForType string
  | ClearContents
  | SetData payload string

datatype level = DEBUG | INFO | ERROR

text \<open>
  A Python float, as \<open>argparse\<close> with \<open>type=float\<close> delivers it: a finite number, an
  infinity, or not-a-number. The finite ones are real numbers here; the rounding of
  float arithmetic is left out.
\<close>

datatype pyfloat = Finite real | PosInf | NegInf | NaN

text \<open>One constructor for each log line of the source; the values an f-string
  interpolates are the constructor's arguments (the text of an exception is left out).\<close>

datatype message =
    ErrorAccessingClipboard
  | ClipboardCheck bool bool bool
  | RecopiedImageOnly
  | NoImageDataFound
  | ErrorModifyingClipboard
  | ClipboardFixerRunning pyfloat
  | TypesAre "string list option"
  | PlainTextIs "string option"
  | DetectedPattern
  | NoMatchIgnoring
  | KeyboardInterruptStopping
  | UnexpectedError
  | DebugModeEnabled

datatype event =
    Call pb_call
  | Log level message
  | Print
  | Sleep pyfloat

text \<open>
  \<open>Exception\<close> stands for any exception of Python's class \<open>Exception\<close> (an AppKit
  failure, the \<open>ValueError\<close> of \<open>time.sleep\<close>); \<open>KeyboardInterrupt\<close> is outside that
  class, so \<open>except Exception\<close> does not catch it.
\<close>

datatype exn = Exception | KeyboardInterrupt

text \<open>
  The state: the pasteboard, which AppKit calls raise at the moment (\<open>raising\<close>), the two
  local variables of \<open>main\<close>, and the trace of events so far.
\<close>

record state =
  pasteboard :: board
  raising :: "pb_call \<Rightarrow> bool"
  last_types :: "string list option"
  last_plain_text :: "string option"
  trace :: "event list"

type_synonym 'a io = "state \<Rightarrow> (exn + 'a) \<times> state"

definition ret :: "'a \<Rightarrow> 'a io" where
  "ret x = (\<lambda>s. (Inr x, s))"

definition throw :: "exn \<Rightarrow> 'a io" where
  "throw e = (\<lambda>s. (Inl e, s))"

definition io_bind :: "'a io \<Rightarrow> ('a \<Rightarrow> 'b io) \<Rightarrow> 'b io" where
  "io_bind m f = (\<lambda>s. case m s of (Inl e, s') \<Rightarrow> (Inl e, s') | (Inr x, s') \<Rightarrow> f x s')"

definition io_seq :: "'a io \<Rightarrow> 'b io \<Rightarrow> 'b io" where
  "io_seq m n = io_bind m (\<lambda>_. n)"

text \<open>\<open>try: m except Exception: h\<close>. A \<open>KeyboardInterrupt\<close> passes through.\<close>

definition except_Exception :: "'a io \<Rightarrow> 'a io \<Rightarrow> 'a io" where
  "except_Exception m h =
     (\<lambda>s. case m s of
        (Inl e, s') \<Rightarrow> (case e of Exception \<Rightarrow> h s' | KeyboardInterrupt \<Rightarrow> (Inl e, s'))
      | (Inr x, s') \<Rightarrow> (Inr x, s'))"

definition emit :: "event \<Rightarrow> unit io" where
  "emit e = (\<lambda>s. (Inr (), s\<lparr>trace := trace s @ [e]\<rparr>))"

definition logger :: "level \<Rightarrow> message \<Rightarrow> unit io" where
  "logger l m = emit (Log l m)"

subsection \<open>The AppKit pasteboard\<close>

text \<open>
  Modelled from the spec: the clipboard resource is AppKit's, outside the repository.
  Section 6 lists its operations: query of the identifiers, read of the plain text, read
  of the payload under an identifier, clear, and write of a payload under an identifier.
  Each call is recorded; it raises when \<open>raising\<close> says so, and otherwise returns its
  result and has its effect on the pasteboard.
\<close>

definition appkit :: "pb_call \<Rightarrow> (state \<Rightarrow> 'a) \<Rightarrow> (state \<Rightarrow> state) \<Rightarrow> 'a io" where
  "appkit c result effect =
     (\<lambda>s. let s1 = s\<lparr>trace := trace s @ [Call c]\<rparr>
          in if raising s c then (Inl Exception, s1) else (Inr (result s1), effect s1))"

definition generalPasteboard :: "unit io" where
  "generalPasteboard = appkit GeneralPasteboard (\<lambda>_. ()) (\<lambda>s. s)"

definition pb_types :: "string list io" where
  "pb_types = appkit Types (\<lambda>s. map fst (pasteboard s)) (\<lambda>s. s)"

definition stringForType :: "string \<Rightarrow> string option io" where
  "stringForType t = appkit (StringForType t) (\<lambda>s. map_of (pasteboard s) t) (\<lambda>s. s)"

definition dataForType :: "string \<Rightarrow> payload option io" where
  "dataForType t = appkit (DataForType t) (\<lambda>s. map_of (pasteboard s) t) (\<lambda>s. s)"

definition clearContents :: "unit io" where
  "clearContents = appkit ClearContents (\<lambda>_. ()) (\<lambda>s. s\<lparr>pasteboard := []\<rparr>)"

fun put :: "string \<Rightarrow> payload \<Rightarrow> board \<Rightarrow> board" where
  "put t d [] = [(t, d)]"
| "put t d ((t', d') # rest) = (if t' = t then (t, d) # rest else (t', d') # put t d rest)"

definition setData_forType :: "payload \<Rightarrow> string \<Rightarrow> unit io" where
  "setData_forType d t =
     appkit (SetData d t) (\<lambda>_. ()) (\<lambda>s. s\<lparr>pasteboard := put t d (pasteboard s)\<rparr>)"

subsection \<open>get_clipboard_contents (lines 45-69)\<close>

definition get_clipboard_contents :: "(string list option \<times> string option) io" where
  "get_clipboard_contents =
     except_Exception
       (io_bind generalPasteboard (\<lambda>pb.
        io_bind pb_types (\<lambda>types.
        io_bind (stringForType NSPasteboardTypeString) (\<lambda>plain_text_content.
        ret (Some types, plain_text_content)))))
       (io_seq (logger ERROR ErrorAccessingClipboard) (ret (None, None)))"

subsection \<open>has_image_and_text (lines 71-106)\<close>

text \<open>\<open>not types\<close> holds of \<open>None\<close> and of the empty list.\<close>

definition has_image_and_text :: "string list option \<Rightarrow> bool io" where
  "has_image_and_text types =
     (case types of
        None \<Rightarrow> ret False
      | Some ts \<Rightarrow>
          if ts = [] then ret False
          else
            let has_image = list_ex (\<lambda>t. t \<in> set ts) [NSPasteboardTypeTIFF, NSPasteboardTypePNG];
                has_text = (NSPasteboardTypeString \<in> set ts);
                has_file = list_ex (\<lambda>t. t \<in> set ts) [NSPasteboardTypeFileURL, ''public.file-path'']
            in io_seq (logger DEBUG (ClipboardCheck has_image has_text has_file))
                 (ret (has_image \<and> has_text \<and> \<not> has_file)))"

subsection \<open>copy_image_only (lines 108-156)\<close>

text \<open>
  Python's truth value of what \<open>dataForType_\<close> returned: \<open>None\<close> is false, and so is a
  data object of length zero (PyObjC gives \<open>NSData\<close> a length).
\<close>

definition truthy :: "payload option \<Rightarrow> bool" where
  "truthy image_data = (case image_data of None \<Rightarrow> False | Some d \<Rightarrow> d \<noteq> [])"

text \<open>The \<open>for\<close> loop over \<open>data_to_write\<close>.\<close>

fun write_each :: "(string \<times> payload) list \<Rightarrow> unit io" where
  "write_each [] = ret ()"
| "write_each ((type_str, data) # rest) =
     io_seq (setData_forType data type_str) (write_each rest)"

definition copy_image_only :: "bool io" where
  "copy_image_only =
     except_Exception
       (io_bind generalPasteboard (\<lambda>pb.
        io_bind (dataForType NSPasteboardTypeTIFF) (\<lambda>tiff_data.
        io_bind
          (if \<not> truthy tiff_data
           then io_bind (dataForType NSPasteboardTypePNG) (\<lambda>png_data.
                  ret (png_data, NSPasteboardTypePNG))
           else ret (tiff_data, NSPasteboardTypeTIFF))
          (\<lambda>(image_data, image_type).
             let not_found = io_seq (logger DEBUG NoImageDataFound) (ret False)
             in case image_data of
                  None \<Rightarrow> not_found
                | Some d \<Rightarrow>
                    if d = [] then not_found
                    else
                      let data_to_write = [(image_type, d)]
                      in io_seq clearContents
                        (io_seq (write_each data_to_write)
                        (io_seq (logger INFO RecopiedImageOnly)
                        (ret True)))))))
       (io_seq (logger ERROR ErrorModifyingClipboard) (ret False))"

subsection \<open>main (lines 160-220)\<close>

text \<open>
  The argument of \<open>main\<close>, a float, and the level
  of the logger as the entry point has set it (\<open>log.isEnabledFor(logging.DEBUG)\<close>).
\<close>

record config =
  poll_interval :: pyfloat
  debug_enabled :: bool

text \<open>
  What the world outside does during one pass of the loop: another writer may replace
  the pasteboard (and which calls raise) before the read, and again between the read
  and the correction; Ctrl+C may arrive during the sleep, the only point where the
  loop is suspended.
\<close>

record tick_env =
  before_read :: "(board \<times> (pb_call \<Rightarrow> bool)) option"
  before_fix :: "(board \<times> (pb_call \<Rightarrow> bool)) option"
  ctrl_c :: bool

definition interfere :: "(board \<times> (pb_call \<Rightarrow> bool)) option \<Rightarrow> unit io" where
  "interfere w =
     (\<lambda>s. (Inr (), case w of None \<Rightarrow> s
                    | Some (b, r) \<Rightarrow> s\<lparr>pasteboard := b, raising := r\<rparr>))"

text \<open>
  The lengths \<open>time.sleep\<close> accepts: a number, not negative, whose count of nanoseconds
  fits a signed 64-bit integer (a little over 9.2e9 seconds). On a negative length and on
  not-a-number it raises \<open>ValueError\<close>, on an infinite or too large one
  \<open>OverflowError\<close>; both are of class \<open>Exception\<close>.
\<close>

definition sleep_accepts :: "pyfloat \<Rightarrow> bool" where
  "sleep_accepts d =
     (case d of
        Finite x \<Rightarrow> 0 \<le> x \<and> x * 1000000000 < 2 ^ 63
      | PosInf \<Rightarrow> False
      | NegInf \<Rightarrow> False
      | NaN \<Rightarrow> False)"

definition sleep :: "bool \<Rightarrow> pyfloat \<Rightarrow> unit io" where
  "sleep interrupted d =
     (if \<not> sleep_accepts d then throw Exception
      else io_seq (emit (Sleep d)) (if interrupted then throw KeyboardInterrupt else ret ()))"

text \<open>The product of a float and a positive constant, as in \<open>poll_interval * 5\<close>.\<close>

fun scaled :: "pyfloat \<Rightarrow> real \<Rightarrow> pyfloat" where
  "scaled (Finite x) k = Finite (x * k)"
| "scaled PosInf k = PosInf"
| "scaled NegInf k = NegInf"
| "scaled NaN k = NaN"

text \<open>The body of the \<open>try\<close> of the loop, lines 177-210.\<close>

definition tick_body :: "config \<Rightarrow> tick_env \<Rightarrow> unit io" where
  "tick_body cfg env =
     io_bind get_clipboard_contents (\<lambda>(current_types, current_plain_text).
     io_bind (\<lambda>s. (Inr (current_types \<noteq> last_types s \<or> current_plain_text \<noteq> last_plain_text s), s))
       (\<lambda>clipboard_changed.
     io_seq
       (if clipboard_changed \<and> current_types \<noteq> None then
          io_seq (if debug_enabled cfg then emit Print else ret ())
         (io_seq (logger DEBUG (TypesAre current_types))
         (io_seq (logger DEBUG (PlainTextIs current_plain_text))
         (io_bind (has_image_and_text current_types) (\<lambda>matched.
            if matched then
              io_seq (logger INFO DetectedPattern)
             (io_seq (interfere (before_fix env))
             (io_bind copy_image_only (\<lambda>_. ret ())))
            else logger DEBUG NoMatchIgnoring))))
        else ret ())
    (io_seq
       (if current_types \<noteq> None then
          (\<lambda>s. (Inr (), s\<lparr>last_types := current_types, last_plain_text := current_plain_text\<rparr>))
        else ret ())
       (sleep (ctrl_c env) (poll_interval cfg)))))"

datatype control = Continue | Break

text \<open>One pass of \<open>while True\<close> with its two handlers, lines 175-220.\<close>

definition iteration :: "config \<Rightarrow> tick_env \<Rightarrow> control io" where
  "iteration cfg env =
     (\<lambda>s. case tick_body cfg env s of
        (Inr u, s') \<Rightarrow> (Inr Continue, s')
      | (Inl e, s') \<Rightarrow>
          (case e of
             KeyboardInterrupt \<Rightarrow>
               io_seq (logger INFO KeyboardInterruptStopping) (ret Break) s'
           | Exception \<Rightarrow>
               io_seq (logger ERROR UnexpectedError)
              (io_seq (sleep (ctrl_c env) (scaled (poll_interval cfg) 5))
              (ret Continue)) s'))"

text \<open>
  The loop runs one pass for each element of the script of the world; a script that
  ends leaves the loop running (\<open>Continue\<close>).
\<close>

fun main_loop :: "config \<Rightarrow> tick_env list \<Rightarrow> control io" where
  "main_loop cfg [] = ret Continue"
| "main_loop cfg (env # envs) =
     io_bind (io_seq (interfere (before_read env)) (iteration cfg env))
       (\<lambda>c. case c of Break \<Rightarrow> ret Break | Continue \<Rightarrow> main_loop cfg envs)"

definition main :: "config \<Rightarrow> tick_env list \<Rightarrow> control io" where
  "main cfg envs =
     io_seq (logger INFO (ClipboardFixerRunning (poll_interval cfg)))
    (io_seq (\<lambda>s. (Inr (), s\<lparr>last_types := None, last_plain_text := None\<rparr>))
    (main_loop cfg envs))"

subsection \<open>The entry point (lines 226-255)\<close>

definition DEFAULT_POLL_INTERVAL :: pyfloat where
  "DEFAULT_POLL_INTERVAL = Finite 1.0"

text \<open>
  The two options as \<open>argparse\<close> delivers them: whether \<open>--debug\<close> was given, and the
  value of \<open>--interval\<close> when it was given.
\<close>

definition parse_args :: "bool \<Rightarrow> pyfloat option \<Rightarrow> config" where
  "parse_args debug_flag interval_opt =
     \<lparr>poll_interval = (case interval_opt of None \<Rightarrow> DEFAULT_POLL_INTERVAL | Some x \<Rightarrow> x),
      debug_enabled = debug_flag\<rparr>"

definition script :: "bool \<Rightarrow> pyfloat option \<Rightarrow> tick_env list \<Rightarrow> control io" where
  "script debug_flag interval_opt envs =
     (let args = parse_args debug_flag interval_opt
      in io_seq (if debug_enabled args then logger DEBUG DebugModeEnabled else ret ())
           (main args envs))"

subsection \<open>Reading a trace\<close>

text \<open>
  The calls of \<open>copy_image_only\<close> in a trace. Every call ends by writing exactly one of
  three log lines: the image was re-copied (line 147), no image data was found (line
  151), or modifying the clipboard raised (line 155). Nothing else in the program writes
  them, so their number is the number of calls.
\<close>

definition corrector_calls :: "event list \<Rightarrow> nat" where
  "corrector_calls tr =
     count_list tr (Log INFO RecopiedImageOnly)
     + count_list tr (Log DEBUG NoImageDataFound)
     + count_list tr (Log ERROR ErrorModifyingClipboard)"

fun is_write :: "event \<Rightarrow> bool" where
  "is_write (Call ClearContents) = True"
| "is_write (Call (SetData d t)) = True"
| "is_write e = False"

definition quiet :: "(pb_call \<Rightarrow> bool)" where
  "quiet = (\<lambda>c. False)"

definition start :: "board \<Rightarrow> state" where
  "start b = \<lparr>pasteboard = b, raising = quiet, last_types = None, last_plain_text = None,
              trace = []\<rparr>"

fun is_sleep :: "event \<Rightarrow> bool" where
  "is_sleep (Sleep d) = True"
| "is_sleep e = False"

text \<open>What \<open>get_clipboard_contents\<close> returns in a state, and whether its \<open>try\<close> body raises.\<close>

definition snapshot :: "state \<Rightarrow> string list option \<times> string option" where
  "snapshot s = (case fst (get_clipboard_contents s) of Inr r \<Rightarrow> r | Inl e \<Rightarrow> (None, None))"

definition read_fails :: "state \<Rightarrow> bool" where
  "read_fails s = (raising s GeneralPasteboard \<or> raising s Types
                   \<or> raising s (StringForType NSPasteboardTypeString))"

text \<open>What \<open>has_image_and_text\<close> returns.\<close>

definition matches :: "string list option \<Rightarrow> bool" where
  "matches types = (fst (has_image_and_text types (start [])) = Inr True)"

text \<open>The condition under which lines 186 and 195 of \<open>main\<close> reach the call of
  \<open>copy_image_only\<close>: the read succeeded, differs from the last one, and matches.\<close>

definition should_fix :: "state \<Rightarrow> bool" where
  "should_fix s = (fst (snapshot s) \<noteq> None
     \<and> snapshot s \<noteq> (last_types s, last_plain_text s) \<and> matches (fst (snapshot s)))"

text \<open>The specification's three tests on an identifier list (section 3, PatternMatch).\<close>

definition image_present :: "string list \<Rightarrow> bool" where
  "image_present ts = (NSPasteboardTypeTIFF \<in> set ts \<or> NSPasteboardTypePNG \<in> set ts)"

definition text_present :: "string list \<Rightarrow> bool" where
  "text_present ts = (NSPasteboardTypeString \<in> set ts)"

definition file_present :: "string list \<Rightarrow> bool" where
  "file_present ts = (NSPasteboardTypeFileURL \<in> set ts \<or> ''public.file-path'' \<in> set ts)"

text \<open>
  What a read returns when the world has put a given pasteboard (and given failures) in
  place, and the condition that every pass of a script reads the snapshot \<open>S\<close> or fails
  to read.
\<close>

definition observe :: "board \<times> (pb_call \<Rightarrow> bool) \<Rightarrow> string list option \<times> string option" where
  "observe w = snapshot ((start (fst w))\<lparr>raising := snd w\<rparr>)"

definition same_read :: "string list option \<times> string option \<Rightarrow> tick_env \<Rightarrow> bool" where
  "same_read S env = (case before_read env of None \<Rightarrow> False
       | Some w \<Rightarrow> observe w = S \<or> fst (observe w) = None)"

subsection \<open>A concrete pasteboard, configuration and script\<close>

definition safari_copy :: board where
  "safari_copy = [(NSPasteboardTypeTIFF, ''II*''), (NSPasteboardTypeString, ''https://example.com'')]"

definition every_second :: config where
  "every_second = \<lparr>poll_interval = Finite 1, debug_enabled = False\<rparr>"

definition put_safari_copy :: tick_env where
  "put_safari_copy = \<lparr>before_read = Some (safari_copy, quiet), before_fix = None, ctrl_c = False\<rparr>"

text \<open>The state a correction of that pasteboard leaves.\<close>

definition corrected_copy :: state where
  "corrected_copy = snd (copy_image_only (start safari_copy))"

definition png_copy :: board where
  "png_copy = [(NSPasteboardTypePNG, ''PNG''), (NSPasteboardTypeString, ''https://example.com'')]"

text \<open>Another writer replaces the pasteboard by plain text between the read and the
  correction.\<close>

definition overwritten_in_between :: tick_env where
  "overwritten_in_between =
     \<lparr>before_read = None,
      before_fix = Some ([(NSPasteboardTypeString, ''typed by the user'')], quiet),
      ctrl_c = False\<rparr>"

definition undisturbed :: tick_env where
  "undisturbed = \<lparr>before_read = None, before_fix = None, ctrl_c = False\<rparr>"

text \<open>A pasteboard whose identifier query raises.\<close>

definition unreadable :: state where
  "unreadable = (start safari_copy)\<lparr>raising := (\<lambda>c. c = Types)\<rparr>"

text \<open>What Finder puts on the pasteboard for a copied image file.\<close>

definition finder_copy :: board where
  "finder_copy = [(NSPasteboardTypeFileURL, ''file:///Users/me/cat.tiff''),
     (NSPasteboardTypeTIFF, ''II*''), (NSPasteboardTypeString, ''cat.tiff'')]"

text \<open>
  The snapshots the passes of a script read when the world puts a pasteboard in place
  before each, and the number of them that are fresh matches: read with success,
  different from the snapshot kept from the last successful read, and matching the
  pattern.
\<close>

fun fresh_matches ::
  "string list option \<times> string option \<Rightarrow> (string list option \<times> string option) list \<Rightarrow> nat" where
  "fresh_matches kept [] = 0"
| "fresh_matches kept (r # rs) =
     (if fst r \<noteq> None \<and> r \<noteq> kept \<and> matches (fst r) then 1 else 0)
     + fresh_matches (if fst r \<noteq> None then r else kept) rs"

definition reads :: "tick_env list \<Rightarrow> (string list option \<times> string option) list" where
  "reads envs = map (\<lambda>e. case before_read e of None \<Rightarrow> (None, None) | Some w \<Rightarrow> observe w) envs"

text \<open>The world puts the copied file on the pasteboard before the pass.\<close>

definition put_finder_copy :: tick_env where
  "put_finder_copy = \<lparr>before_read = Some (finder_copy, quiet), before_fix = None, ctrl_c = False\<rparr>"

section \<open>Properties\<close>

subsection \<open>Sequencing\<close>

lemmas io_defs = ret_def throw_def io_bind_def io_seq_def except_Exception_def emit_def logger_def
  appkit_def generalPasteboard_def pb_types_def stringForType_def dataForType_def clearContents_def
  setData_forType_def interfere_def sleep_def

lemmas id_defs = NSPasteboardTypeTIFF_def NSPasteboardTypePNG_def NSPasteboardTypeString_def
  NSPasteboardTypeFileURL_def

lemma io_bind_Inr: "fst (m s) = Inr x \<Longrightarrow> io_bind m f s = f x (snd (m s))"
  by (cases "m s") (simp add: io_bind_def)

lemma io_bind_const: "\<exists>x. fst (m s) = Inr x \<Longrightarrow> io_bind m (\<lambda>_. n) s = n (snd (m s))"
  by (cases "m s") (auto simp add: io_bind_def)

lemma io_seq_const: "\<exists>x. fst (m s) = Inr x \<Longrightarrow> io_seq m n s = n (snd (m s))"
  by (simp add: io_seq_def io_bind_const)

lemma io_seq_assoc: "io_seq (io_seq a b) c = io_seq a (io_seq b c)"
  by (auto simp: io_seq_def io_bind_def fun_eq_iff split: prod.splits sum.splits)

lemma io_seq_bind: "io_seq (io_bind m f) c = io_bind m (\<lambda>x. io_seq (f x) c)"
  by (auto simp: io_seq_def io_bind_def fun_eq_iff split: prod.splits sum.splits)

lemma io_seq_if: "io_seq (if b then x else y) c = (if b then io_seq x c else io_seq y c)"
  by simp

lemma io_prims:
  "io_seq (ret x) n s = n s"
  "io_bind (ret x) f s = f x s"
  "io_seq (emit e) n s = n (s\<lparr>trace := trace s @ [e]\<rparr>)"
  "io_seq (logger l msg) n s = n (s\<lparr>trace := trace s @ [Log l msg]\<rparr>)"
  "io_seq (interfere w) n s = n (snd (interfere w s))"
  "io_bind (\<lambda>s. (Inr (g s), h s)) f s = f (g s) (h s)"
  "io_seq (\<lambda>s. (Inr (), h s)) n s = n (h s)"
  by (simp_all add: io_defs)

lemma sleep_eq:
  "sleep i d s = (if \<not> sleep_accepts d then (Inl Exception, s)
     else (if i then Inl KeyboardInterrupt else Inr (), s\<lparr>trace := trace s @ [Sleep d]\<rparr>))"
  by (simp add: io_defs)

lemma interfere_snd:
  "last_types (snd (interfere w s)) = last_types s"
  "last_plain_text (snd (interfere w s)) = last_plain_text s"
  "trace (snd (interfere w s)) = trace s"
  "snd (interfere None s) = s"
  by (simp_all add: io_defs split: option.splits prod.splits)

lemma calls_simps:
  "corrector_calls (xs @ ys) = corrector_calls xs + corrector_calls ys"
  "corrector_calls [] = 0"
  "corrector_calls (e # xs) =
     (if e = Log INFO RecopiedImageOnly \<or> e = Log DEBUG NoImageDataFound
         \<or> e = Log ERROR ErrorModifyingClipboard then 1 else 0) + corrector_calls xs"
  by (auto simp add: corrector_calls_def)

lemma scaled_rejected: "\<not> sleep_accepts d \<Longrightarrow> \<not> sleep_accepts (scaled d 5)"
  by (cases d) (auto simp add: sleep_accepts_def)

subsection \<open>The three functions, one at a time\<close>

lemma has_fst: "fst (has_image_and_text types s) = Inr (matches types)"
  by (auto simp: has_image_and_text_def matches_def io_defs Let_def split: option.splits)

lemma has_snd:
  "pasteboard (snd (has_image_and_text types s)) = pasteboard s"
  "raising (snd (has_image_and_text types s)) = raising s"
  "last_types (snd (has_image_and_text types s)) = last_types s"
  "last_plain_text (snd (has_image_and_text types s)) = last_plain_text s"
  "corrector_calls (trace (snd (has_image_and_text types s))) = corrector_calls (trace s)"
  "filter is_write (trace (snd (has_image_and_text types s))) = filter is_write (trace s)"
  "filter is_sleep (trace (snd (has_image_and_text types s))) = filter is_sleep (trace s)"
  by (auto simp: has_image_and_text_def io_defs Let_def corrector_calls_def split: option.splits)

lemma matches_iff:
  "matches types = (case types of None \<Rightarrow> False
     | Some ts \<Rightarrow> image_present ts \<and> text_present ts \<and> \<not> file_present ts)"
  by (auto simp: has_image_and_text_def matches_def io_defs Let_def image_present_def
      text_present_def file_present_def split: option.splits)

lemma gcc_fst: "fst (get_clipboard_contents s) = Inr (snapshot s)"
  by (auto simp: get_clipboard_contents_def snapshot_def io_defs Let_def)

lemma gcc_snd:
  "pasteboard (snd (get_clipboard_contents s)) = pasteboard s"
  "raising (snd (get_clipboard_contents s)) = raising s"
  "last_types (snd (get_clipboard_contents s)) = last_types s"
  "last_plain_text (snd (get_clipboard_contents s)) = last_plain_text s"
  "corrector_calls (trace (snd (get_clipboard_contents s))) = corrector_calls (trace s)"
  "filter is_write (trace (snd (get_clipboard_contents s))) = filter is_write (trace s)"
  "filter is_sleep (trace (snd (get_clipboard_contents s))) = filter is_sleep (trace s)"
  by (auto simp: get_clipboard_contents_def io_defs Let_def corrector_calls_def)

lemma snapshot_eq:
  "snapshot s = (if read_fails s then (None, None)
     else (Some (map fst (pasteboard s)), map_of (pasteboard s) NSPasteboardTypeString))"
  by (auto simp: get_clipboard_contents_def snapshot_def read_fails_def io_defs Let_def)

lemma copy_fst: "\<exists>b. fst (copy_image_only s) = Inr b"
  by (auto simp add: copy_image_only_def io_defs Let_def truthy_def split: option.splits)

lemma copy_snd:
  "raising (snd (copy_image_only s)) = raising s"
  "last_types (snd (copy_image_only s)) = last_types s"
  "last_plain_text (snd (copy_image_only s)) = last_plain_text s"
  "corrector_calls (trace (snd (copy_image_only s))) = corrector_calls (trace s) + 1"
  "filter is_sleep (trace (snd (copy_image_only s))) = filter is_sleep (trace s)"
  by (auto simp add: copy_image_only_def io_defs Let_def truthy_def corrector_calls_def
      split: option.splits)

subsection \<open>One pass of the loop\<close>

lemmas tick_simps = io_bind_Inr[OF gcc_fst] io_bind_Inr[OF has_fst] io_bind_const[OF copy_fst]
  io_seq_const[OF copy_fst]
  io_seq_assoc io_seq_bind io_seq_if io_prims sleep_eq interfere_snd gcc_snd has_snd copy_snd
  split_beta

lemma tick_body_calls:
  "corrector_calls (trace (snd (tick_body cfg env s))) =
     corrector_calls (trace s) + (if should_fix s then 1 else 0)"
  by (auto simp add: tick_body_def tick_simps should_fix_def calls_simps prod_eq_iff)

lemma tick_body_last:
  "(last_types (snd (tick_body cfg env s)), last_plain_text (snd (tick_body cfg env s))) =
     (if fst (snapshot s) \<noteq> None then snapshot s else (last_types s, last_plain_text s))"
  by (auto simp add: tick_body_def tick_simps prod_eq_iff)

lemma tick_body_frame:
  "\<not> should_fix s \<Longrightarrow> pasteboard (snd (tick_body cfg env s)) = pasteboard s
     \<and> raising (snd (tick_body cfg env s)) = raising s
     \<and> filter is_write (trace (snd (tick_body cfg env s))) = filter is_write (trace s)"
  by (auto simp add: tick_body_def tick_simps should_fix_def prod_eq_iff)

lemma tick_body_fst:
  "fst (tick_body cfg env s) = (if \<not> sleep_accepts (poll_interval cfg) then Inl Exception
      else if ctrl_c env then Inl KeyboardInterrupt else Inr ())"
  by (auto simp add: tick_body_def tick_simps)

lemma tick_body_sleeps:
  "filter is_sleep (trace (snd (tick_body cfg env s))) =
     filter is_sleep (trace s) @ (if \<not> sleep_accepts (poll_interval cfg) then [] else [Sleep (poll_interval cfg)])"
  by (auto simp add: tick_body_def tick_simps)

lemma iteration_eq:
  "iteration cfg env s =
     (let s' = snd (tick_body cfg env s) in
      if \<not> sleep_accepts (poll_interval cfg)
      then (Inl Exception, s'\<lparr>trace := trace s' @ [Log ERROR UnexpectedError]\<rparr>)
      else if ctrl_c env
      then (Inr Break, s'\<lparr>trace := trace s' @ [Log INFO KeyboardInterruptStopping]\<rparr>)
      else (Inr Continue, s'))"
  using tick_body_fst [of cfg env s]
  by (cases "tick_body cfg env s")
     (auto simp add: iteration_def io_defs Let_def scaled_rejected split: if_splits)

lemma iteration_calls:
  "corrector_calls (trace (snd (iteration cfg env s))) =
     corrector_calls (trace s) + (if should_fix s then 1 else 0)"
  by (simp add: iteration_eq Let_def calls_simps tick_body_calls)

lemma iteration_last:
  "(last_types (snd (iteration cfg env s)), last_plain_text (snd (iteration cfg env s))) =
     (if fst (snapshot s) \<noteq> None then snapshot s else (last_types s, last_plain_text s))"
  using tick_body_last [of cfg env s] by (auto simp add: iteration_eq Let_def split: if_splits)

lemma iteration_frame:
  "\<not> should_fix s \<Longrightarrow> pasteboard (snd (iteration cfg env s)) = pasteboard s
     \<and> raising (snd (iteration cfg env s)) = raising s
     \<and> filter is_write (trace (snd (iteration cfg env s))) = filter is_write (trace s)"
  using tick_body_frame [of s cfg env] by (simp add: iteration_eq Let_def)

lemma iteration_sleeps:
  "filter is_sleep (trace (snd (iteration cfg env s))) =
     filter is_sleep (trace s) @ (if \<not> sleep_accepts (poll_interval cfg) then [] else [Sleep (poll_interval cfg)])"
  by (simp add: iteration_eq Let_def tick_body_sleeps)

lemma iteration_fst:
  "fst (iteration cfg env s) = (if \<not> sleep_accepts (poll_interval cfg) then Inl Exception
      else if ctrl_c env then Inr Break else Inr Continue)"
  by (simp add: iteration_eq Let_def)

subsection \<open>The pattern classifier\<close>

text \<open>
  C1. For every identifier list, \<open>has_image_and_text\<close> returns true exactly when the list
  holds an image identifier (TIFF or PNG), holds the plain-text identifier, and holds
  neither file-reference identifier. An absent list and an empty list give false. The
  result depends on the set of identifiers only, not on their order or repetition. Of
  the eight combinations of image, text and file, only image and text without file gives
  true.
\<close>

theorem has_image_and_text_classifies:
  "fst (has_image_and_text (Some ts) s)
     = Inr (image_present ts \<and> text_present ts \<and> \<not> file_present ts)
   \<and> fst (has_image_and_text None s) = Inr False
   \<and> fst (has_image_and_text (Some []) s) = Inr False
   \<and> (set ts = set ts' \<longrightarrow>
        fst (has_image_and_text (Some ts) s) = fst (has_image_and_text (Some ts') s'))
   \<and> (\<forall>i t f. image_present ts = i \<and> text_present ts = t \<and> file_present ts = f \<longrightarrow>
        fst (has_image_and_text (Some ts) s) = Inr ((i, t, f) = (True, True, False)))"
  by (auto simp add: has_fst matches_iff image_present_def text_present_def file_present_def)

theorem has_image_and_text_classifies_witness:
  "fst (has_image_and_text (Some [NSPasteboardTypeTIFF, NSPasteboardTypeString]) (start [])) = Inr True
   \<and> fst (has_image_and_text
        (Some [NSPasteboardTypeString, NSPasteboardTypePNG, NSPasteboardTypePNG]) (start [])) = Inr True
   \<and> fst (has_image_and_text
        (Some [NSPasteboardTypeTIFF, NSPasteboardTypeString, NSPasteboardTypeFileURL]) (start []))
       = Inr False
   \<and> fst (has_image_and_text
        (Some [NSPasteboardTypeTIFF, NSPasteboardTypeString, ''public.file-path'']) (start []))
       = Inr False
   \<and> fst (has_image_and_text (Some [NSPasteboardTypeTIFF, NSPasteboardTypeFileURL]) (start []))
       = Inr False
   \<and> fst (has_image_and_text (Some [NSPasteboardTypeTIFF]) (start [])) = Inr False
   \<and> fst (has_image_and_text (Some [NSPasteboardTypeString, NSPasteboardTypeFileURL]) (start []))
       = Inr False
   \<and> fst (has_image_and_text (Some [NSPasteboardTypeString]) (start [])) = Inr False
   \<and> fst (has_image_and_text (Some [NSPasteboardTypeFileURL]) (start [])) = Inr False
   \<and> fst (has_image_and_text (Some [''com.example.other'']) (start [])) = Inr False"
  using
    has_image_and_text_classifies
      [of "[NSPasteboardTypeTIFF, NSPasteboardTypeString]" "start []" "[]" "start []"]
    has_image_and_text_classifies
      [of "[NSPasteboardTypeString, NSPasteboardTypePNG, NSPasteboardTypePNG]" "start []" "[]" "start []"]
    has_image_and_text_classifies
      [of "[NSPasteboardTypeTIFF, NSPasteboardTypeString, NSPasteboardTypeFileURL]" "start []" "[]" "start []"]
    has_image_and_text_classifies
      [of "[NSPasteboardTypeTIFF, NSPasteboardTypeString, ''public.file-path'']" "start []" "[]" "start []"]
    has_image_and_text_classifies
      [of "[NSPasteboardTypeTIFF, NSPasteboardTypeFileURL]" "start []" "[]" "start []"]
    has_image_and_text_classifies [of "[NSPasteboardTypeTIFF]" "start []" "[]" "start []"]
    has_image_and_text_classifies
      [of "[NSPasteboardTypeString, NSPasteboardTypeFileURL]" "start []" "[]" "start []"]
    has_image_and_text_classifies [of "[NSPasteboardTypeString]" "start []" "[]" "start []"]
    has_image_and_text_classifies [of "[NSPasteboardTypeFileURL]" "start []" "[]" "start []"]
    has_image_and_text_classifies [of "[''com.example.other'']" "start []" "[]" "start []"]
  by (simp add: image_present_def text_present_def file_present_def NSPasteboardTypeTIFF_def
      NSPasteboardTypePNG_def NSPasteboardTypeString_def NSPasteboardTypeFileURL_def)

subsection \<open>The loop over a script\<close>

lemma snapshot_observe: "snapshot s = observe (pasteboard s, raising s)"
  by (simp add: observe_def snapshot_eq read_fails_def start_def)

lemma snapshot_interfere:
  "snapshot (snd (interfere (Some w) s)) = observe w"
  by (cases w) (simp add: snapshot_observe io_defs)

lemma main_loop_Cons:
  "main_loop cfg (env # envs) s =
     (let s0 = snd (interfere (before_read env) s) in
      case fst (iteration cfg env s0) of
        Inr Continue \<Rightarrow> main_loop cfg envs (snd (iteration cfg env s0))
      | _ \<Rightarrow> iteration cfg env s0)"
  apply (simp add: io_prims io_seq_assoc Let_def)
  apply (cases "iteration cfg env (snd (interfere (before_read env) s))")
  apply (auto simp: io_defs split: sum.splits control.splits)
  done

lemma stable_no_calls:
  "\<forall>env\<in>set envs. same_read S env \<Longrightarrow> (last_types s, last_plain_text s) = S \<Longrightarrow>
   corrector_calls (trace (snd (main_loop cfg envs s))) = corrector_calls (trace s)"
proof (induction envs arbitrary: s)
  case Nil
  then show ?case by (simp add: ret_def)
next
  case (Cons env envs)
  from Cons.prems obtain w where w: "before_read env = Some w"
    and obs: "observe w = S \<or> fst (observe w) = None"
    by (auto simp: same_read_def split: option.splits)
  define s0 where "s0 = snd (interfere (before_read env) s)"
  have snap: "snapshot s0 = observe w" by (simp add: s0_def w snapshot_interfere)
  have last0: "(last_types s0, last_plain_text s0) = S"
    using Cons.prems by (simp add: s0_def interfere_snd)
  have nofix: "\<not> should_fix s0"
    using obs snap last0 by (auto simp: should_fix_def)
  define s1 where "s1 = snd (iteration cfg env s0)"
  have c1: "corrector_calls (trace s1) = corrector_calls (trace s)"
    using nofix by (simp add: s1_def iteration_calls s0_def interfere_snd)
  have l1: "(last_types s1, last_plain_text s1) = S"
    using iteration_last [of cfg env s0] obs snap last0 by (auto simp: s1_def)
  have ih: "corrector_calls (trace (snd (main_loop cfg envs s1))) = corrector_calls (trace s1)"
    using Cons.IH [of s1] Cons.prems l1 by simp
  show ?case
    using c1 ih
    by (simp add: main_loop_Cons Let_def s0_def [symmetric] s1_def [symmetric]
        split: sum.splits control.splits del: main_loop.simps)
qed

lemma same_read_at_most_once:
  "\<forall>env\<in>set envs. same_read S env \<Longrightarrow>
   corrector_calls (trace (snd (main_loop cfg envs s))) \<le> corrector_calls (trace s) + 1"
proof (induction envs arbitrary: s)
  case Nil
  then show ?case by (simp add: ret_def)
next
  case (Cons env envs)
  from Cons.prems obtain w where w: "before_read env = Some w"
    and obs: "observe w = S \<or> fst (observe w) = None"
    by (auto simp: same_read_def split: option.splits)
  define s0 where "s0 = snd (interfere (before_read env) s)"
  define s1 where "s1 = snd (iteration cfg env s0)"
  have snap: "snapshot s0 = observe w" by (simp add: s0_def w snapshot_interfere)
  have c1: "corrector_calls (trace s1) = corrector_calls (trace s) + (if should_fix s0 then 1 else 0)"
    by (simp add: s1_def iteration_calls s0_def interfere_snd)
  have rest: "corrector_calls (trace (snd (main_loop cfg envs s1))) \<le> corrector_calls (trace s) + 1"
  proof (cases "should_fix s0")
    case True
    then have "fst (snapshot s0) \<noteq> None" by (simp add: should_fix_def)
    with obs snap have l1: "(last_types s1, last_plain_text s1) = S"
      using iteration_last [of cfg env s0] by (auto simp: s1_def)
    have "corrector_calls (trace (snd (main_loop cfg envs s1))) = corrector_calls (trace s1)"
      using stable_no_calls [OF _ l1] Cons.prems by simp
    with c1 True show ?thesis by simp
  next
    case False
    with c1 Cons.IH [of s1] Cons.prems show ?thesis by simp
  qed
  show ?case
    using c1 rest
    by (simp add: main_loop_Cons Let_def s0_def [symmetric] s1_def [symmetric]
        split: sum.splits control.splits del: main_loop.simps)
qed

lemma calls_bounded_by_fresh_matches:
  "\<forall>e\<in>set envs. before_read e \<noteq> None \<Longrightarrow>
   corrector_calls (trace (snd (main_loop cfg envs s)))
     \<le> corrector_calls (trace s) + fresh_matches (last_types s, last_plain_text s) (reads envs)
   \<and> (sleep_accepts (poll_interval cfg) \<and> (\<forall>e\<in>set envs. \<not> ctrl_c e) \<longrightarrow>
      corrector_calls (trace (snd (main_loop cfg envs s)))
        = corrector_calls (trace s) + fresh_matches (last_types s, last_plain_text s) (reads envs))"
proof (induction envs arbitrary: s)
  case Nil
  then show ?case by (simp add: ret_def reads_def)
next
  case (Cons env envs)
  from Cons.prems obtain w where w: "before_read env = Some w" by auto
  define s0 where "s0 = snd (interfere (before_read env) s)"
  define s1 where "s1 = snd (iteration cfg env s0)"
  define r where "r = observe w"
  have snap: "snapshot s0 = r" by (simp add: s0_def w snapshot_interfere r_def)
  have last0: "last_types s0 = last_types s" "last_plain_text s0 = last_plain_text s"
    by (simp_all add: s0_def interfere_snd)
  have c1: "corrector_calls (trace s1) = corrector_calls (trace s)
      + (if fst r \<noteq> None \<and> r \<noteq> (last_types s, last_plain_text s) \<and> matches (fst r) then 1 else 0)"
    by (simp add: s1_def iteration_calls should_fix_def snap last0) (simp add: s0_def interfere_snd)
  have l1: "(last_types s1, last_plain_text s1)
      = (if fst r \<noteq> None then r else (last_types s, last_plain_text s))"
    using iteration_last [of cfg env s0] by (simp add: s1_def snap last0)
  have rd: "reads (env # envs) = r # reads envs" by (simp add: reads_def w r_def)
  from Cons.IH [of s1] Cons.prems
  have ih: "corrector_calls (trace (snd (main_loop cfg envs s1)))
     \<le> corrector_calls (trace s1) + fresh_matches (last_types s1, last_plain_text s1) (reads envs)
   \<and> (sleep_accepts (poll_interval cfg) \<and> (\<forall>e\<in>set envs. \<not> ctrl_c e) \<longrightarrow>
      corrector_calls (trace (snd (main_loop cfg envs s1)))
        = corrector_calls (trace s1) + fresh_matches (last_types s1, last_plain_text s1) (reads envs))"
    by simp
  have f: "sleep_accepts (poll_interval cfg) \<and> \<not> ctrl_c env \<longrightarrow> fst (iteration cfg env s0) = Inr Continue"
    by (simp add: iteration_fst)
  show ?case
    using c1 ih f l1
    by (auto simp add: main_loop_Cons Let_def s0_def [symmetric] s1_def [symmetric] rd
        split: sum.splits control.splits simp del: main_loop.simps)
qed

text \<open>
  C3. On every pass of the loop, from any state, \<open>copy_image_only\<close> is called exactly when
  the read succeeded, the snapshot read (identifier list and plain text) differs from the
  last one kept, and the identifier list matches the pattern; it is then called once.
  Otherwise it is not called, nothing is cleared or written, and the pasteboard is left
  as it is. When a pass has read a snapshot and the next pass reads the same snapshot,
  the next pass does not call it. Over a script of any length in which every pass reads
  one and the same snapshot or fails to read, it is called at most once in total. Over
  any script, it is called at most once for each pass whose read is a fresh match, and
  exactly that often when the loop is not stopped.
\<close>

theorem corrector_only_on_fresh_match:
  "corrector_calls (trace (snd (iteration cfg env s))) =
     corrector_calls (trace s)
       + (if fst (snapshot s) \<noteq> None \<and> snapshot s \<noteq> (last_types s, last_plain_text s)
             \<and> matches (fst (snapshot s)) then 1 else 0)
   \<and> (\<not> (fst (snapshot s) \<noteq> None \<and> snapshot s \<noteq> (last_types s, last_plain_text s)
             \<and> matches (fst (snapshot s))) \<longrightarrow>
        pasteboard (snd (iteration cfg env s)) = pasteboard s
      \<and> filter is_write (trace (snd (iteration cfg env s))) = filter is_write (trace s))
   \<and> (fst (snapshot s) \<noteq> None
        \<and> snapshot (snd (interfere w (snd (iteration cfg env s)))) = snapshot s \<longrightarrow>
      corrector_calls
        (trace (snd (iteration cfg env' (snd (interfere w (snd (iteration cfg env s)))))))
        = corrector_calls (trace (snd (iteration cfg env s))))
   \<and> ((\<forall>e\<in>set envs. same_read S e) \<longrightarrow>
        corrector_calls (trace (snd (main_loop cfg envs s))) \<le> corrector_calls (trace s) + 1)
   \<and> ((\<forall>e\<in>set envs'. before_read e \<noteq> None) \<longrightarrow>
        corrector_calls (trace (snd (main_loop cfg envs' s)))
          \<le> corrector_calls (trace s)
             + fresh_matches (last_types s, last_plain_text s) (reads envs')
      \<and> (sleep_accepts (poll_interval cfg) \<and> (\<forall>e\<in>set envs'. \<not> ctrl_c e) \<longrightarrow>
          corrector_calls (trace (snd (main_loop cfg envs' s)))
            = corrector_calls (trace s)
               + fresh_matches (last_types s, last_plain_text s) (reads envs')))"
proof (intro conjI)
  show "corrector_calls (trace (snd (iteration cfg env s))) =
     corrector_calls (trace s)
       + (if fst (snapshot s) \<noteq> None \<and> snapshot s \<noteq> (last_types s, last_plain_text s)
             \<and> matches (fst (snapshot s)) then 1 else 0)"
    by (simp add: iteration_calls should_fix_def)
next
  show "\<not> (fst (snapshot s) \<noteq> None \<and> snapshot s \<noteq> (last_types s, last_plain_text s)
             \<and> matches (fst (snapshot s))) \<longrightarrow>
        pasteboard (snd (iteration cfg env s)) = pasteboard s
      \<and> filter is_write (trace (snd (iteration cfg env s))) = filter is_write (trace s)"
    using iteration_frame [of s cfg env] by (simp add: should_fix_def)
next
  show "fst (snapshot s) \<noteq> None
        \<and> snapshot (snd (interfere w (snd (iteration cfg env s)))) = snapshot s \<longrightarrow>
      corrector_calls
        (trace (snd (iteration cfg env' (snd (interfere w (snd (iteration cfg env s)))))))
        = corrector_calls (trace (snd (iteration cfg env s)))"
  proof
    define s1 where "s1 = snd (iteration cfg env s)"
    define s2 where "s2 = snd (interfere w s1)"
    assume a: "fst (snapshot s) \<noteq> None
          \<and> snapshot (snd (interfere w (snd (iteration cfg env s)))) = snapshot s"
    have "(last_types s1, last_plain_text s1) = snapshot s"
      using a iteration_last [of cfg env s] by (simp add: s1_def)
    then have "(last_types s2, last_plain_text s2) = snapshot s2"
      using a by (simp add: s2_def s1_def interfere_snd)
    then have "\<not> should_fix s2" by (simp add: should_fix_def)
    then show "corrector_calls
          (trace (snd (iteration cfg env' (snd (interfere w (snd (iteration cfg env s)))))))
          = corrector_calls (trace (snd (iteration cfg env s)))"
      by (simp add: iteration_calls s2_def [symmetric] s1_def [symmetric])
         (simp add: s2_def interfere_snd)
  qed
next
  show "(\<forall>e\<in>set envs. same_read S e) \<longrightarrow>
        corrector_calls (trace (snd (main_loop cfg envs s))) \<le> corrector_calls (trace s) + 1"
    using same_read_at_most_once [of envs S cfg s] by blast
next
  show "(\<forall>e\<in>set envs'. before_read e \<noteq> None) \<longrightarrow>
        corrector_calls (trace (snd (main_loop cfg envs' s)))
          \<le> corrector_calls (trace s)
             + fresh_matches (last_types s, last_plain_text s) (reads envs')
      \<and> (sleep_accepts (poll_interval cfg) \<and> (\<forall>e\<in>set envs'. \<not> ctrl_c e) \<longrightarrow>
          corrector_calls (trace (snd (main_loop cfg envs' s)))
            = corrector_calls (trace s)
               + fresh_matches (last_types s, last_plain_text s) (reads envs'))"
    using calls_bounded_by_fresh_matches [of envs' cfg s] by blast
qed

theorem corrector_only_on_fresh_match_witness:
  "corrector_calls (trace (snd (iteration every_second put_safari_copy (start safari_copy)))) = 1
   \<and> corrector_calls (trace (snd (iteration every_second put_safari_copy
        (snd (interfere (Some (safari_copy, quiet))
           (snd (iteration every_second put_safari_copy (start safari_copy)))))))) = 1
   \<and> corrector_calls (trace (snd (main_loop every_second
        [put_safari_copy, put_safari_copy, put_safari_copy] (start safari_copy)))) \<le> 1
   \<and> corrector_calls (trace (snd (main_loop every_second
        [put_safari_copy, put_finder_copy, put_safari_copy] (start safari_copy)))) = 2"
proof -
  let ?S = "(Some [NSPasteboardTypeTIFF, NSPasteboardTypeString], Some ''https://example.com'')"
  let ?F = "(Some [NSPasteboardTypeFileURL, NSPasteboardTypeTIFF, NSPasteboardTypeString],
      Some ''cat.tiff'')"
  have snap: "snapshot (start safari_copy) = ?S"
    by (simp add: snapshot_eq read_fails_def start_def quiet_def safari_copy_def id_defs)
  have m: "matches (Some [NSPasteboardTypeTIFF, NSPasteboardTypeString])"
    by (simp add: matches_iff image_present_def text_present_def file_present_def id_defs)
  have nm: "\<not> matches (Some [NSPasteboardTypeFileURL, NSPasteboardTypeTIFF, NSPasteboardTypeString])"
    by (simp add: matches_iff image_present_def text_present_def file_present_def id_defs)
  have again: "snapshot (snd (interfere (Some (safari_copy, quiet))
           (snd (iteration every_second put_safari_copy (start safari_copy))))) = ?S"
    by (simp only: snapshot_interfere)
       (simp add: observe_def snapshot_eq read_fails_def start_def quiet_def
        safari_copy_def id_defs)
  have same: "\<forall>e\<in>set [put_safari_copy, put_safari_copy, put_safari_copy]. same_read ?S e"
    by (simp add: same_read_def put_safari_copy_def observe_def snapshot_eq read_fails_def
        start_def quiet_def safari_copy_def id_defs)
  have obs: "observe (safari_copy, quiet) = ?S" "observe (finder_copy, quiet) = ?F"
    by (simp_all add: observe_def snapshot_eq read_fails_def start_def quiet_def
        safari_copy_def finder_copy_def id_defs)
  have rd: "reads [put_safari_copy, put_finder_copy, put_safari_copy] = [?S, ?F, ?S]"
    by (simp add: reads_def put_safari_copy_def put_finder_copy_def obs)
  have fm: "fresh_matches (None, None) [?S, ?F, ?S] = 2"
    by (simp add: m nm)
  have put: "\<forall>e\<in>set [put_safari_copy, put_finder_copy, put_safari_copy].
      before_read e \<noteq> None \<and> \<not> ctrl_c e"
    by (simp add: put_safari_copy_def put_finder_copy_def)
  have acc: "sleep_accepts (poll_interval every_second)"
    by (simp add: every_second_def sleep_accepts_def)
  have t0: "corrector_calls (trace (start safari_copy)) = 0"
    "last_types (start safari_copy) = None" "last_plain_text (start safari_copy) = None"
    by (simp_all add: start_def calls_simps)
  show ?thesis
    using corrector_only_on_fresh_match [of every_second put_safari_copy "start safari_copy"
        "Some (safari_copy, quiet)" put_safari_copy
        "[put_safari_copy, put_safari_copy, put_safari_copy]" ?S
        "[put_safari_copy, put_finder_copy, put_safari_copy]"]
      snap m again same t0 rd fm put acc
    by simp
qed

subsection \<open>The corrector\<close>

lemma copy_found_tiff:
  "\<not> raising s GeneralPasteboard \<Longrightarrow> \<not> raising s (DataForType NSPasteboardTypeTIFF) \<Longrightarrow>
   map_of (pasteboard s) NSPasteboardTypeTIFF = Some B \<Longrightarrow> B \<noteq> [] \<Longrightarrow>
   \<not> raising s ClearContents \<Longrightarrow> \<not> raising s (SetData B NSPasteboardTypeTIFF) \<Longrightarrow>
   copy_image_only s = (Inr True, s\<lparr>pasteboard := [(NSPasteboardTypeTIFF, B)],
     trace := trace s @ [Call GeneralPasteboard, Call (DataForType NSPasteboardTypeTIFF),
       Call ClearContents, Call (SetData B NSPasteboardTypeTIFF), Log INFO RecopiedImageOnly]\<rparr>)"
  by (simp add: copy_image_only_def io_defs Let_def truthy_def)

lemma copy_found_png:
  "\<not> raising s GeneralPasteboard \<Longrightarrow> \<not> raising s (DataForType NSPasteboardTypeTIFF) \<Longrightarrow>
   \<not> truthy (map_of (pasteboard s) NSPasteboardTypeTIFF) \<Longrightarrow>
   \<not> raising s (DataForType NSPasteboardTypePNG) \<Longrightarrow>
   map_of (pasteboard s) NSPasteboardTypePNG = Some B \<Longrightarrow> B \<noteq> [] \<Longrightarrow>
   \<not> raising s ClearContents \<Longrightarrow> \<not> raising s (SetData B NSPasteboardTypePNG) \<Longrightarrow>
   copy_image_only s = (Inr True, s\<lparr>pasteboard := [(NSPasteboardTypePNG, B)],
     trace := trace s @ [Call GeneralPasteboard, Call (DataForType NSPasteboardTypeTIFF),
       Call (DataForType NSPasteboardTypePNG),
       Call ClearContents, Call (SetData B NSPasteboardTypePNG), Log INFO RecopiedImageOnly]\<rparr>)"
  by (simp add: copy_image_only_def io_defs Let_def truthy_def split: option.splits)

lemma copy_not_found:
  "\<not> raising s GeneralPasteboard \<Longrightarrow> \<not> raising s (DataForType NSPasteboardTypeTIFF) \<Longrightarrow>
   \<not> truthy (map_of (pasteboard s) NSPasteboardTypeTIFF) \<Longrightarrow>
   \<not> raising s (DataForType NSPasteboardTypePNG) \<Longrightarrow>
   \<not> truthy (map_of (pasteboard s) NSPasteboardTypePNG) \<Longrightarrow>
   copy_image_only s = (Inr False, s\<lparr>
     trace := trace s @ [Call GeneralPasteboard, Call (DataForType NSPasteboardTypeTIFF),
       Call (DataForType NSPasteboardTypePNG), Log DEBUG NoImageDataFound]\<rparr>)"
  by (auto simp add: copy_image_only_def io_defs Let_def truthy_def split: option.splits)

lemma copy_True_cases:
  "fst (copy_image_only s) = Inr True \<Longrightarrow>
   \<not> raising s GeneralPasteboard \<and> \<not> raising s (DataForType NSPasteboardTypeTIFF)
   \<and> \<not> raising s ClearContents
   \<and> ((\<exists>B. map_of (pasteboard s) NSPasteboardTypeTIFF = Some B \<and> B \<noteq> []
            \<and> \<not> raising s (SetData B NSPasteboardTypeTIFF))
        \<or> (\<not> truthy (map_of (pasteboard s) NSPasteboardTypeTIFF)
            \<and> \<not> raising s (DataForType NSPasteboardTypePNG)
            \<and> (\<exists>B. map_of (pasteboard s) NSPasteboardTypePNG = Some B \<and> B \<noteq> []
            \<and> \<not> raising s (SetData B NSPasteboardTypePNG))))"
  by (simp add: copy_image_only_def io_defs Let_def truthy_def split: option.splits if_splits)

lemma copy_True_board:
  assumes "fst (copy_image_only s) = Inr True"
  shows "\<exists>d. pasteboard (snd (copy_image_only s)) = [(NSPasteboardTypeTIFF, d)]
           \<or> pasteboard (snd (copy_image_only s)) = [(NSPasteboardTypePNG, d)]"
  using copy_True_cases [OF assms]
  by (auto simp: copy_found_tiff copy_found_png)

lemma image_only_no_match:
  "\<not> matches (Some [NSPasteboardTypeTIFF])" "\<not> matches (Some [NSPasteboardTypePNG])"
  by (simp_all add: matches_iff text_present_def id_defs)

text \<open>
  C2. On a pasteboard that holds TIFF image bytes \<open>B\<close> (at least one byte), whatever else
  it holds, a correction with no failing AppKit call succeeds, and every correction that
  succeeds has made exactly these calls in this order: general pasteboard, read of the
  TIFF payload, clear of all contents, write of \<open>B\<close> under the TIFF identifier. Afterwards
  the pasteboard holds the one entry TIFF with payload \<open>B\<close>: its identifier set is
  exactly the TIFF identifier.
\<close>

theorem correction_leaves_tiff_only:
  assumes "map_of (pasteboard s) NSPasteboardTypeTIFF = Some B" and "B \<noteq> []"
  shows "(raising s = quiet \<longrightarrow> fst (copy_image_only s) = Inr True)
    \<and> (fst (copy_image_only s) = Inr True \<longrightarrow>
         pasteboard (snd (copy_image_only s)) = [(NSPasteboardTypeTIFF, B)]
       \<and> set (map fst (pasteboard (snd (copy_image_only s)))) = {NSPasteboardTypeTIFF}
       \<and> map_of (pasteboard (snd (copy_image_only s))) NSPasteboardTypeTIFF = Some B
       \<and> trace (snd (copy_image_only s)) =
           trace s @ [Call GeneralPasteboard, Call (DataForType NSPasteboardTypeTIFF),
             Call ClearContents, Call (SetData B NSPasteboardTypeTIFF),
             Log INFO RecopiedImageOnly])"
proof (intro conjI impI)
  assume "raising s = quiet"
  then show "fst (copy_image_only s) = Inr True"
    using assms by (simp add: copy_found_tiff quiet_def)
next
  assume ok: "fst (copy_image_only s) = Inr True"
  from copy_True_cases [OF ok] assms
  have eq: "copy_image_only s = (Inr True, s\<lparr>pasteboard := [(NSPasteboardTypeTIFF, B)],
     trace := trace s @ [Call GeneralPasteboard, Call (DataForType NSPasteboardTypeTIFF),
       Call ClearContents, Call (SetData B NSPasteboardTypeTIFF), Log INFO RecopiedImageOnly]\<rparr>)"
    by (intro copy_found_tiff) (auto simp: truthy_def)
  show "pasteboard (snd (copy_image_only s)) = [(NSPasteboardTypeTIFF, B)]"
    by (simp add: eq)
  show "set (map fst (pasteboard (snd (copy_image_only s)))) = {NSPasteboardTypeTIFF}"
    by (simp add: eq)
  show "map_of (pasteboard (snd (copy_image_only s))) NSPasteboardTypeTIFF = Some B"
    by (simp add: eq)
  show "trace (snd (copy_image_only s)) =
           trace s @ [Call GeneralPasteboard, Call (DataForType NSPasteboardTypeTIFF),
             Call ClearContents, Call (SetData B NSPasteboardTypeTIFF),
             Log INFO RecopiedImageOnly]"
    by (simp add: eq)
qed

theorem correction_leaves_tiff_only_witness:
  "fst (copy_image_only (start safari_copy)) = Inr True
   \<and> pasteboard (snd (copy_image_only (start safari_copy))) = [(NSPasteboardTypeTIFF, ''II*'')]
   \<and> set (map fst (pasteboard (snd (copy_image_only (start safari_copy))))) = {NSPasteboardTypeTIFF}
   \<and> map_of (pasteboard (snd (copy_image_only (start safari_copy)))) NSPasteboardTypeTIFF
       = Some ''II*''"
proof -
  have a: "map_of (pasteboard (start safari_copy)) NSPasteboardTypeTIFF = Some ''II*''"
    by (simp add: start_def safari_copy_def id_defs)
  have b: "''II*'' \<noteq> []" by simp
  have q: "raising (start safari_copy) = quiet" by (simp add: start_def)
  from correction_leaves_tiff_only [OF a b] q show ?thesis by simp
qed

text \<open>
  C4. After a correction that succeeded, the pasteboard holds exactly one identifier, TIFF
  or PNG, and not the plain-text identifier, so \<open>has_image_and_text\<close> is false of it. A
  pass of the loop that finds this pasteboard, whatever snapshot it kept last, does not
  call \<open>copy_image_only\<close> and leaves the pasteboard as it is.
\<close>

theorem corrected_state_not_retriggered:
  assumes "fst (copy_image_only s) = Inr True"
      and "pasteboard s2 = pasteboard (snd (copy_image_only s))"
  shows "(map fst (pasteboard (snd (copy_image_only s))) = [NSPasteboardTypeTIFF]
          \<or> map fst (pasteboard (snd (copy_image_only s))) = [NSPasteboardTypePNG])
    \<and> NSPasteboardTypeString \<notin> set (map fst (pasteboard (snd (copy_image_only s))))
    \<and> fst (has_image_and_text (Some (map fst (pasteboard (snd (copy_image_only s))))) s3)
        = Inr False
    \<and> corrector_calls (trace (snd (iteration cfg env s2))) = corrector_calls (trace s2)
    \<and> pasteboard (snd (iteration cfg env s2)) = pasteboard s2"
proof -
  from copy_True_board [OF assms(1)] obtain d where
    d: "pasteboard (snd (copy_image_only s)) = [(NSPasteboardTypeTIFF, d)]
           \<or> pasteboard (snd (copy_image_only s)) = [(NSPasteboardTypePNG, d)]" by blast
  then have nm: "\<not> matches (Some (map fst (pasteboard (snd (copy_image_only s)))))"
    using image_only_no_match by auto
  have "\<not> matches (fst (snapshot s2))"
    using nm assms(2) by (auto simp: snapshot_eq matches_iff)
  then have nf: "\<not> should_fix s2" by (simp add: should_fix_def)
  show ?thesis
    using d nm nf iteration_frame [OF nf, of cfg env]
    by (auto simp: iteration_calls has_fst id_defs)
qed

theorem corrected_state_not_retriggered_witness:
  "fst (has_image_and_text (Some (map fst (pasteboard corrected_copy))) (start [])) = Inr False
   \<and> corrector_calls (trace (snd (iteration every_second
        \<lparr>before_read = None, before_fix = None, ctrl_c = False\<rparr> corrected_copy)))
       = corrector_calls (trace corrected_copy)
   \<and> pasteboard (snd (iteration every_second
        \<lparr>before_read = None, before_fix = None, ctrl_c = False\<rparr> corrected_copy))
       = pasteboard corrected_copy"
proof -
  have a: "fst (copy_image_only (start safari_copy)) = Inr True"
    by (simp add: copy_found_tiff [where B = "''II*''"] start_def safari_copy_def quiet_def id_defs)
  have b: "pasteboard corrected_copy = pasteboard (snd (copy_image_only (start safari_copy)))"
    by (simp add: corrected_copy_def)
  from corrected_state_not_retriggered [OF a b, of "start []" every_second
      "\<lparr>before_read = None, before_fix = None, ctrl_c = False\<rparr>"]
  show ?thesis by (simp add: corrected_copy_def)
qed

text \<open>
  C5. With no failing AppKit call, \<open>copy_image_only\<close> reads the payload under the TIFF
  identifier first. When that read gives data, the PNG identifier is not read and the
  TIFF payload is what is written back. When it gives none, the PNG identifier is read
  next; if that gives bytes \<open>B2\<close>, the pasteboard is cleared and \<open>B2\<close> is written under
  the PNG identifier. The function takes its not-found return (the debug line, result
  false, nothing cleared or written) exactly when neither read gives data, and that is
  the only way it returns false. Data is present in the sense of the source's test
  \<open>if image_data\<close>: a payload of length zero counts as none.
\<close>

theorem extraction_prefers_tiff_then_png:
  assumes "raising s = quiet"
  shows "(truthy (map_of (pasteboard s) NSPasteboardTypeTIFF) \<longrightarrow>
           fst (copy_image_only s) = Inr True
         \<and> Call (DataForType NSPasteboardTypePNG)
              \<notin> set (drop (length (trace s)) (trace (snd (copy_image_only s))))
         \<and> map fst (pasteboard (snd (copy_image_only s))) = [NSPasteboardTypeTIFF]
         \<and> map_of (pasteboard (snd (copy_image_only s))) NSPasteboardTypeTIFF
             = map_of (pasteboard s) NSPasteboardTypeTIFF)
    \<and> (\<not> truthy (map_of (pasteboard s) NSPasteboardTypeTIFF) \<longrightarrow>
           take 3 (drop (length (trace s)) (trace (snd (copy_image_only s)))) =
             [Call GeneralPasteboard, Call (DataForType NSPasteboardTypeTIFF),
              Call (DataForType NSPasteboardTypePNG)])
    \<and> (\<not> truthy (map_of (pasteboard s) NSPasteboardTypeTIFF)
         \<and> map_of (pasteboard s) NSPasteboardTypePNG = Some B2 \<and> B2 \<noteq> [] \<longrightarrow>
           copy_image_only s = (Inr True, s\<lparr>pasteboard := [(NSPasteboardTypePNG, B2)],
             trace := trace s @ [Call GeneralPasteboard, Call (DataForType NSPasteboardTypeTIFF),
               Call (DataForType NSPasteboardTypePNG), Call ClearContents,
               Call (SetData B2 NSPasteboardTypePNG), Log INFO RecopiedImageOnly]\<rparr>))
    \<and> (copy_image_only s = (Inr False, s\<lparr>trace := trace s @
            [Call GeneralPasteboard, Call (DataForType NSPasteboardTypeTIFF),
             Call (DataForType NSPasteboardTypePNG), Log DEBUG NoImageDataFound]\<rparr>)
        \<longleftrightarrow> \<not> truthy (map_of (pasteboard s) NSPasteboardTypeTIFF)
           \<and> \<not> truthy (map_of (pasteboard s) NSPasteboardTypePNG))
    \<and> (fst (copy_image_only s) = Inr False
        \<longleftrightarrow> \<not> truthy (map_of (pasteboard s) NSPasteboardTypeTIFF)
           \<and> \<not> truthy (map_of (pasteboard s) NSPasteboardTypePNG))"
proof -
  have q: "\<And>c. \<not> raising s c" using assms by (simp add: quiet_def)
  show ?thesis
  proof (cases "map_of (pasteboard s) NSPasteboardTypeTIFF")
    case None
    show ?thesis
    proof (cases "truthy (map_of (pasteboard s) NSPasteboardTypePNG)")
      case True
      then obtain P where P: "map_of (pasteboard s) NSPasteboardTypePNG = Some P" "P \<noteq> []"
        by (auto simp: truthy_def split: option.splits)
      have nt: "\<not> truthy (map_of (pasteboard s) NSPasteboardTypeTIFF)"
        using None by (simp add: truthy_def)
      show ?thesis
        using None True
        by (simp add: copy_found_png [OF q q nt q P q q] truthy_def P)
    next
      case False
      have nt: "\<not> truthy (map_of (pasteboard s) NSPasteboardTypeTIFF)"
        using None by (simp add: truthy_def)
      show ?thesis
        using None False
        by (auto simp add: copy_not_found [OF q q nt q False] truthy_def)
    qed
  next
    case (Some T)
    show ?thesis
    proof (cases "T = []")
      case nonempty: False
      show ?thesis
        using Some nonempty
        by (simp add: copy_found_tiff [OF q q Some nonempty q q] truthy_def id_defs)
    next
      case True
      have nt: "\<not> truthy (map_of (pasteboard s) NSPasteboardTypeTIFF)"
        using Some True by (simp add: truthy_def)
      show ?thesis
      proof (cases "truthy (map_of (pasteboard s) NSPasteboardTypePNG)")
        case png: True
        then obtain P where P: "map_of (pasteboard s) NSPasteboardTypePNG = Some P" "P \<noteq> []"
          by (auto simp: truthy_def split: option.splits)
        show ?thesis
          using Some True png
          by (simp add: copy_found_png [OF q q nt q P q q] truthy_def P)
      next
        case False
        show ?thesis
          using Some True False
          by (auto simp add: copy_not_found [OF q q nt q False] truthy_def)
      qed
    qed
  qed
qed

theorem extraction_prefers_tiff_then_png_witness:
  "copy_image_only (start png_copy) =
     (Inr True, (start png_copy)\<lparr>pasteboard := [(NSPasteboardTypePNG, ''PNG'')],
        trace := [Call GeneralPasteboard, Call (DataForType NSPasteboardTypeTIFF),
          Call (DataForType NSPasteboardTypePNG), Call ClearContents,
          Call (SetData ''PNG'' NSPasteboardTypePNG), Log INFO RecopiedImageOnly]\<rparr>)
   \<and> fst (copy_image_only (start safari_copy)) = Inr True
   \<and> map fst (pasteboard (snd (copy_image_only (start safari_copy)))) = [NSPasteboardTypeTIFF]
   \<and> fst (copy_image_only (start [(NSPasteboardTypeString, ''https://example.com'')])) = Inr False"
proof -
  have q: "\<And>b. raising (start b) = quiet" by (simp add: start_def)
  have a: "\<not> truthy (map_of (pasteboard (start png_copy)) NSPasteboardTypeTIFF)
         \<and> map_of (pasteboard (start png_copy)) NSPasteboardTypePNG = Some ''PNG'' \<and> ''PNG'' \<noteq> []"
    by (simp add: start_def png_copy_def truthy_def id_defs)
  have b: "truthy (map_of (pasteboard (start safari_copy)) NSPasteboardTypeTIFF)"
    by (simp add: start_def safari_copy_def truthy_def id_defs)
  have c: "\<not> truthy (map_of (pasteboard (start [(NSPasteboardTypeString, ''https://example.com'')]))
              NSPasteboardTypeTIFF)
         \<and> \<not> truthy (map_of (pasteboard (start [(NSPasteboardTypeString, ''https://example.com'')]))
              NSPasteboardTypePNG)"
    by (simp add: start_def truthy_def id_defs)
  show ?thesis
    using extraction_prefers_tiff_then_png [OF q, of png_copy "''PNG''"]
      extraction_prefers_tiff_then_png [OF q, of safari_copy "''PNG''"]
      extraction_prefers_tiff_then_png [OF q, of "[(NSPasteboardTypeString, ''https://example.com'')]" "''PNG''"]
      a b c
    by (simp add: start_def)
qed

subsection \<open>A pass that finds the image gone\<close>

lemma interfere_board:
  "pasteboard (snd (interfere w s)) = (case w of None \<Rightarrow> pasteboard s | Some x \<Rightarrow> fst x)"
  "raising (snd (interfere w s)) = (case w of None \<Rightarrow> raising s | Some x \<Rightarrow> snd x)"
  by (simp_all add: io_defs split: option.splits prod.splits)

lemma gcc_trace_ok:
  "\<not> read_fails s \<Longrightarrow> trace (snd (get_clipboard_contents s)) =
     trace s @ [Call GeneralPasteboard, Call Types, Call (StringForType NSPasteboardTypeString)]"
  by (simp add: get_clipboard_contents_def read_fails_def io_defs Let_def)

lemma gcc_trace_fail:
  "read_fails s \<Longrightarrow> trace (snd (get_clipboard_contents s)) =
     trace s @ (if raising s GeneralPasteboard then [Call GeneralPasteboard]
        else if raising s Types then [Call GeneralPasteboard, Call Types]
        else [Call GeneralPasteboard, Call Types, Call (StringForType NSPasteboardTypeString)])
      @ [Log ERROR ErrorAccessingClipboard]"
  by (auto simp add: get_clipboard_contents_def read_fails_def io_defs Let_def)

lemma has_trace_match:
  "matches ts \<Longrightarrow> trace (snd (has_image_and_text ts s)) =
     trace s @ [Log DEBUG (ClipboardCheck True True False)]"
  by (auto simp: has_image_and_text_def matches_def io_defs Let_def split: option.splits if_splits)

lemma should_fix_read: "should_fix s \<Longrightarrow> \<not> read_fails s"
  by (auto simp: should_fix_def snapshot_eq)

text \<open>
  C6. A pass has read a fresh snapshot that matches the pattern, and by the time
  \<open>copy_image_only\<close> runs (another writer may have replaced the pasteboard in between)
  neither the TIFF nor the PNG read gives data, the reads themselves not failing. Then,
  for a poll interval that \<open>time.sleep\<close> accepts, the pass makes exactly the calls listed:
  one read under TIFF, one under PNG, the debug line, and the sleep. It makes no clear and no
  write, so the pasteboard is as the other writer left it; the pass ends normally, and
  the loop goes on (or stops on Ctrl+C).
\<close>

theorem vanished_image_is_skipped:
  assumes "should_fix s"
    and "\<not> raising (snd (interfere (before_fix env) s)) GeneralPasteboard"
    and "\<not> raising (snd (interfere (before_fix env) s)) (DataForType NSPasteboardTypeTIFF)"
    and "\<not> raising (snd (interfere (before_fix env) s)) (DataForType NSPasteboardTypePNG)"
    and "\<not> truthy (map_of (pasteboard (snd (interfere (before_fix env) s))) NSPasteboardTypeTIFF)"
    and "\<not> truthy (map_of (pasteboard (snd (interfere (before_fix env) s))) NSPasteboardTypePNG)"
    and "sleep_accepts (poll_interval cfg)"
  shows "drop (length (trace s)) (trace (snd (iteration cfg env s))) =
      [Call GeneralPasteboard, Call Types, Call (StringForType NSPasteboardTypeString)]
      @ (if debug_enabled cfg then [Print] else [])
      @ [Log DEBUG (TypesAre (fst (snapshot s))), Log DEBUG (PlainTextIs (snd (snapshot s))),
         Log DEBUG (ClipboardCheck True True False), Log INFO DetectedPattern,
         Call GeneralPasteboard, Call (DataForType NSPasteboardTypeTIFF),
         Call (DataForType NSPasteboardTypePNG), Log DEBUG NoImageDataFound,
         Sleep (poll_interval cfg)]
      @ (if ctrl_c env then [Log INFO KeyboardInterruptStopping] else [])
    \<and> pasteboard (snd (iteration cfg env s)) = pasteboard (snd (interfere (before_fix env) s))
    \<and> filter is_write (trace (snd (iteration cfg env s))) = filter is_write (trace s)
    \<and> fst (iteration cfg env s) = Inr (if ctrl_c env then Break else Continue)"
proof -
  have rd: "\<not> read_fails s" using assms(1) by (rule should_fix_read)
  have m: "matches (fst (snapshot s))" and ne: "fst (snapshot s) \<noteq> None"
    and ch: "snapshot s \<noteq> (last_types s, last_plain_text s)"
    using assms(1) by (simp_all add: should_fix_def)
  have sn: "snapshot s = (Some (map fst (pasteboard s)), map_of (pasteboard s) NSPasteboardTypeString)"
    using rd by (simp add: snapshot_eq)
  show ?thesis
  proof (cases "before_fix env")
    case None
    show ?thesis
      using assms(2-7) m ne ch rd
      by (simp add: None iteration_eq Let_def tick_body_def tick_simps prod_eq_iff
          copy_not_found gcc_trace_ok has_trace_match)
  next
    case (Some w)
    have i: "\<And>x. snd (interfere (Some w) x) = x\<lparr>pasteboard := fst w, raising := snd w\<rparr>"
      by (simp add: io_defs split: prod.splits)
    show ?thesis
      using assms(2-7) m ne ch rd
      by (simp add: Some i iteration_eq Let_def tick_body_def tick_simps prod_eq_iff
          copy_not_found gcc_trace_ok has_trace_match)
  qed
qed

lemma should_fix_safari: "should_fix (start safari_copy)"
  by (simp add: should_fix_def snapshot_eq read_fails_def matches_iff image_present_def
      text_present_def file_present_def start_def quiet_def safari_copy_def id_defs)

theorem vanished_image_is_skipped_witness:
  "pasteboard (snd (iteration every_second overwritten_in_between (start safari_copy)))
     = [(NSPasteboardTypeString, ''typed by the user'')]
   \<and> filter is_write (trace (snd (iteration every_second overwritten_in_between
        (start safari_copy)))) = []
   \<and> fst (iteration every_second overwritten_in_between (start safari_copy)) = Inr Continue
   \<and> trace (snd (iteration every_second overwritten_in_between (start safari_copy))) =
      [Call GeneralPasteboard, Call Types, Call (StringForType NSPasteboardTypeString),
       Log DEBUG (TypesAre (Some [NSPasteboardTypeTIFF, NSPasteboardTypeString])),
       Log DEBUG (PlainTextIs (Some ''https://example.com'')),
       Log DEBUG (ClipboardCheck True True False), Log INFO DetectedPattern,
       Call GeneralPasteboard, Call (DataForType NSPasteboardTypeTIFF),
       Call (DataForType NSPasteboardTypePNG), Log DEBUG NoImageDataFound, Sleep (Finite 1)]"
proof -
  have i: "snd (interfere (before_fix overwritten_in_between) (start safari_copy))
      = (start safari_copy)\<lparr>pasteboard := [(NSPasteboardTypeString, ''typed by the user'')],
          raising := quiet\<rparr>"
    by (simp add: overwritten_in_between_def io_defs)
  have sn: "snapshot (start safari_copy) =
      (Some [NSPasteboardTypeTIFF, NSPasteboardTypeString], Some ''https://example.com'')"
    by (simp add: snapshot_eq read_fails_def start_def quiet_def safari_copy_def id_defs)
  have t0: "trace (start safari_copy) = []" by (simp add: start_def)
  from vanished_image_is_skipped [of "start safari_copy" overwritten_in_between every_second]
  show ?thesis
    by (simp add: should_fix_safari i quiet_def truthy_def id_defs every_second_def sn t0
          sleep_accepts_def)
       (simp add: overwritten_in_between_def)
qed

subsection \<open>A copied file\<close>

text \<open>
  C8. A pass reads a snapshot whose identifier list holds an image identifier, the
  plain-text identifier and a file-reference identifier. Whether the snapshot is fresh
  or not, the pass does not call \<open>copy_image_only\<close>, makes no clear and no write, and
  the pasteboard after the pass is the pasteboard before it.
\<close>

theorem file_copy_is_left_alone:
  assumes "\<not> read_fails s"
    and "image_present (map fst (pasteboard s))"
    and "text_present (map fst (pasteboard s))"
    and "file_present (map fst (pasteboard s))"
  shows "corrector_calls (trace (snd (iteration cfg env s))) = corrector_calls (trace s)
    \<and> filter is_write (trace (snd (iteration cfg env s))) = filter is_write (trace s)
    \<and> pasteboard (snd (iteration cfg env s)) = pasteboard s"
proof -
  have "\<not> matches (fst (snapshot s))"
    using assms by (simp add: snapshot_eq matches_iff)
  then have nf: "\<not> should_fix s" by (simp add: should_fix_def)
  then show ?thesis
    using iteration_frame [OF nf, of cfg env] by (simp add: iteration_calls)
qed

theorem file_copy_is_left_alone_witness:
  "corrector_calls (trace (snd (iteration every_second undisturbed (start finder_copy)))) = 0
    \<and> filter is_write (trace (snd (iteration every_second undisturbed (start finder_copy)))) = []
    \<and> pasteboard (snd (iteration every_second undisturbed (start finder_copy))) = finder_copy"
proof -
  have a: "\<not> read_fails (start finder_copy)" by (simp add: read_fails_def start_def quiet_def)
  have b: "image_present (map fst (pasteboard (start finder_copy)))"
    "text_present (map fst (pasteboard (start finder_copy)))"
    "file_present (map fst (pasteboard (start finder_copy)))"
    by (simp_all add: image_present_def text_present_def file_present_def start_def
        finder_copy_def)
  from file_copy_is_left_alone [OF a b, of every_second undisturbed]
  show ?thesis by (simp add: start_def calls_simps)
qed

subsection \<open>Reading the pasteboard\<close>

text \<open>
  C10. \<open>get_clipboard_contents\<close> always returns a value and propagates no exception. When
  one of its three AppKit calls raises it returns \<open>(None, None)\<close>; when none raises it
  returns the identifier list, which is not \<open>None\<close>, and the plain text, which is
  \<open>None\<close> when the pasteboard has no plain text. So the first component is \<open>None\<close>
  exactly when the read failed. It does not change the pasteboard. The loop reads the
  pair the same way: after a failed read it keeps the last snapshot and calls nothing;
  after a read that succeeded with no plain text it keeps the new list with \<open>None\<close>.
\<close>

theorem get_clipboard_contents_never_raises:
  "(\<exists>r. fst (get_clipboard_contents s) = Inr r)
   \<and> (read_fails s \<longrightarrow> fst (get_clipboard_contents s) = Inr (None, None))
   \<and> (\<not> read_fails s \<longrightarrow> fst (get_clipboard_contents s) =
         Inr (Some (map fst (pasteboard s)), map_of (pasteboard s) NSPasteboardTypeString))
   \<and> (fst (snapshot s) = None \<longleftrightarrow> read_fails s)
   \<and> pasteboard (snd (get_clipboard_contents s)) = pasteboard s
   \<and> (read_fails s \<longrightarrow>
        last_types (snd (iteration cfg env s)) = last_types s
      \<and> last_plain_text (snd (iteration cfg env s)) = last_plain_text s
      \<and> corrector_calls (trace (snd (iteration cfg env s))) = corrector_calls (trace s))
   \<and> (\<not> read_fails s \<and> map_of (pasteboard s) NSPasteboardTypeString = None \<longrightarrow>
        last_types (snd (iteration cfg env s)) = Some (map fst (pasteboard s))
      \<and> last_plain_text (snd (iteration cfg env s)) = None)"
  using iteration_last [of cfg env s]
  by (auto simp add: gcc_fst gcc_snd snapshot_eq iteration_calls should_fix_def)

theorem get_clipboard_contents_never_raises_witness:
  "fst (get_clipboard_contents unreadable) = Inr (None, None)
   \<and> last_types (snd (iteration every_second undisturbed unreadable)) = None
   \<and> fst (get_clipboard_contents (start [(NSPasteboardTypeTIFF, ''II*'')]))
       = Inr (Some [NSPasteboardTypeTIFF], None)
   \<and> last_types (snd (iteration every_second undisturbed (start [(NSPasteboardTypeTIFF, ''II*'')])))
       = Some [NSPasteboardTypeTIFF]
   \<and> last_plain_text (snd (iteration every_second undisturbed
        (start [(NSPasteboardTypeTIFF, ''II*'')]))) = None"
proof -
  have a: "read_fails unreadable" by (simp add: read_fails_def unreadable_def)
  have b: "\<not> read_fails (start [(NSPasteboardTypeTIFF, ''II*'')])
      \<and> map_of (pasteboard (start [(NSPasteboardTypeTIFF, ''II*'')])) NSPasteboardTypeString = None"
    by (simp add: read_fails_def start_def quiet_def id_defs)
  have c: "last_types unreadable = None" by (simp add: unreadable_def start_def)
  show ?thesis
    using get_clipboard_contents_never_raises [of unreadable every_second undisturbed]
      get_clipboard_contents_never_raises [of "start [(NSPasteboardTypeTIFF, ''II*'')]"
        every_second undisturbed] a b c
    by (simp add: start_def)
qed

subsection \<open>A pass whose read fails\<close>

text \<open>
  C7, as the claim states it, fails: a pass whose read fails sleeps the normal poll
  interval, not a multiple of it. \<open>get_clipboard_contents\<close> turns the failure into
  \<open>(None, None)\<close>, so the handler of the loop, which holds the sleep of five poll
  intervals, is not entered. With a poll interval of one second and an identifier query
  that raises, the pass sleeps one second and not five.
\<close>

theorem failed_read_backoff_counterexample:
  "fst (snapshot unreadable) = None
   \<and> trace (snd (iteration every_second undisturbed unreadable)) =
       [Call GeneralPasteboard, Call Types, Log ERROR ErrorAccessingClipboard,
        Sleep (poll_interval every_second)]
   \<and> Sleep (scaled (poll_interval every_second) 5)
       \<notin> set (trace (snd (iteration every_second undisturbed unreadable)))"
  by (simp add: snapshot_eq read_fails_def unreadable_def iteration_eq Let_def tick_body_def
      tick_simps gcc_trace_fail every_second_def undisturbed_def start_def sleep_accepts_def)

text \<open>
  C7, amended. On a pass whose read fails, with a poll interval that \<open>time.sleep\<close>
  accepts (a number from 0 up to what fits 64 bits of nanoseconds), the
  loop keeps the last snapshot, does not call \<open>copy_image_only\<close>, leaves the pasteboard
  as it is, does not enter its handler for unexpected errors, and sleeps the normal poll
  interval once before the next pass. Every other pass, from any state, sleeps the same
  normal interval once.
\<close>

theorem failed_read_keeps_state_and_interval:
  assumes "read_fails s" and "sleep_accepts (poll_interval cfg)"
  shows "last_types (snd (iteration cfg env s)) = last_types s
    \<and> last_plain_text (snd (iteration cfg env s)) = last_plain_text s
    \<and> corrector_calls (trace (snd (iteration cfg env s))) = corrector_calls (trace s)
    \<and> pasteboard (snd (iteration cfg env s)) = pasteboard s
    \<and> filter is_sleep (trace (snd (iteration cfg env s)))
        = filter is_sleep (trace s) @ [Sleep (poll_interval cfg)]
    \<and> Log ERROR UnexpectedError \<notin> set (drop (length (trace s)) (trace (snd (iteration cfg env s))))
    \<and> fst (iteration cfg env s) = Inr (if ctrl_c env then Break else Continue)
    \<and> filter is_sleep (trace (snd (iteration cfg env' s')))
        = filter is_sleep (trace s') @ [Sleep (poll_interval cfg)]"
proof -
  have sn: "snapshot s = (None, None)" using assms(1) by (simp add: snapshot_eq)
  then have nf: "\<not> should_fix s" by (simp add: should_fix_def)
  have tr: "drop (length (trace s)) (trace (snd (iteration cfg env s))) =
      (if raising s GeneralPasteboard then [Call GeneralPasteboard]
        else if raising s Types then [Call GeneralPasteboard, Call Types]
        else [Call GeneralPasteboard, Call Types, Call (StringForType NSPasteboardTypeString)])
      @ [Log ERROR ErrorAccessingClipboard, Sleep (poll_interval cfg)]
      @ (if ctrl_c env then [Log INFO KeyboardInterruptStopping] else [])"
    using assms sn
    by (simp add: iteration_eq Let_def tick_body_def tick_simps gcc_trace_fail)
  show ?thesis
    using iteration_last [of cfg env s] iteration_frame [OF nf, of cfg env] sn assms(2) tr
    by (simp add: iteration_calls nf iteration_sleeps iteration_fst)
qed

theorem failed_read_keeps_state_and_interval_witness:
  "last_types (snd (iteration every_second undisturbed unreadable)) = None
    \<and> corrector_calls (trace (snd (iteration every_second undisturbed unreadable))) = 0
    \<and> pasteboard (snd (iteration every_second undisturbed unreadable)) = safari_copy
    \<and> filter is_sleep (trace (snd (iteration every_second undisturbed unreadable))) = [Sleep (Finite 1)]
    \<and> fst (iteration every_second undisturbed unreadable) = Inr Continue
    \<and> filter is_sleep (trace (snd (iteration every_second undisturbed (start safari_copy))))
        = [Sleep (Finite 1)]"
proof -
  have a: "read_fails unreadable" by (simp add: read_fails_def unreadable_def)
  have b: "sleep_accepts (poll_interval every_second)"
    by (simp add: every_second_def sleep_accepts_def)
  from failed_read_keeps_state_and_interval [OF a b, of undisturbed undisturbed "start safari_copy"]
  show ?thesis
    by (simp add: unreadable_def start_def calls_simps every_second_def undisturbed_def)
qed

subsection \<open>The poll interval\<close>

lemma main_loop_runs:
  "sleep_accepts (poll_interval cfg) \<Longrightarrow> \<forall>e\<in>set envs. \<not> ctrl_c e \<Longrightarrow>
   fst (main_loop cfg envs s) = Inr Continue
   \<and> filter is_sleep (trace (snd (main_loop cfg envs s)))
       = filter is_sleep (trace s) @ replicate (length envs) (Sleep (poll_interval cfg))"
proof (induction envs arbitrary: s)
  case Nil
  then show ?case by (simp add: ret_def)
next
  case (Cons env envs)
  define s0 where "s0 = snd (interfere (before_read env) s)"
  define s1 where "s1 = snd (iteration cfg env s0)"
  have f: "fst (iteration cfg env s0) = Inr Continue"
    using Cons.prems by (simp add: iteration_fst)
  have sl: "filter is_sleep (trace s1) = filter is_sleep (trace s) @ [Sleep (poll_interval cfg)]"
    using Cons.prems by (simp add: s1_def iteration_sleeps s0_def interfere_snd)
  from Cons.IH [of s1] Cons.prems
  have ih: "fst (main_loop cfg envs s1) = Inr Continue
   \<and> filter is_sleep (trace (snd (main_loop cfg envs s1)))
       = filter is_sleep (trace s1) @ replicate (length envs) (Sleep (poll_interval cfg))"
    by simp
  show ?case
    using f sl ih
    by (simp add: main_loop_Cons Let_def s0_def [symmetric] s1_def [symmetric]
        replicate_app_Cons_same del: main_loop.simps)
qed

lemma script_eq:
  "script d iv envs s = main_loop (parse_args d iv) envs
     (s\<lparr>trace := trace s @ (if d then [Log DEBUG DebugModeEnabled] else [])
           @ [Log INFO (ClipboardFixerRunning (poll_interval (parse_args d iv)))],
        last_types := None, last_plain_text := None\<rparr>)"
  by (simp add: script_def main_def Let_def io_prims io_seq_assoc io_seq_if parse_args_def)

lemma main_loop_Nil: "main_loop cfg [] s = (Inr Continue, s)"
  by (simp add: ret_def)

text \<open>
  C9, as the claim states it, fails: nothing in the program checks that the interval is
  greater than zero. Given the interval 0 the script runs the loop: the pass reads the
  pasteboard, corrects it and sleeps 0 seconds. Given the interval -1 the pass reads and
  corrects the pasteboard as well (\<open>time.sleep\<close> then rejects the negative length).
  Nothing here depends on the rounding of floats.
\<close>

theorem interval_must_be_positive_counterexample:
  "poll_interval (parse_args False (Some (Finite 0))) = Finite 0
   \<and> fst (script False (Some (Finite 0)) [undisturbed] (start safari_copy)) = Inr Continue
   \<and> pasteboard (snd (script False (Some (Finite 0)) [undisturbed] (start safari_copy)))
       = [(NSPasteboardTypeTIFF, ''II*'')]
   \<and> trace (snd (script False (Some (Finite 0)) [undisturbed] (start safari_copy))) =
       [Log INFO (ClipboardFixerRunning (Finite 0)),
        Call GeneralPasteboard, Call Types, Call (StringForType NSPasteboardTypeString),
        Log DEBUG (TypesAre (Some [NSPasteboardTypeTIFF, NSPasteboardTypeString])),
        Log DEBUG (PlainTextIs (Some ''https://example.com'')),
        Log DEBUG (ClipboardCheck True True False), Log INFO DetectedPattern,
        Call GeneralPasteboard, Call (DataForType NSPasteboardTypeTIFF),
        Call ClearContents, Call (SetData ''II*'' NSPasteboardTypeTIFF),
        Log INFO RecopiedImageOnly, Sleep (Finite 0)]
   \<and> pasteboard (snd (script False (Some (Finite (- 1))) [undisturbed] (start safari_copy)))
       = [(NSPasteboardTypeTIFF, ''II*'')]
   \<and> corrector_calls (trace (snd (script False (Some (Finite (- 1))) [undisturbed] (start safari_copy))))
       = 1"
proof -
  have st: "pasteboard (start safari_copy) = safari_copy" "raising (start safari_copy) = quiet"
    "trace (start safari_copy) = []"
    by (simp_all add: start_def)
  have obs: "observe (safari_copy, quiet) =
      (Some [NSPasteboardTypeTIFF, NSPasteboardTypeString], Some ''https://example.com'')"
    by (simp add: observe_def snapshot_eq read_fails_def start_def quiet_def safari_copy_def id_defs)
  have m: "matches (Some [NSPasteboardTypeTIFF, NSPasteboardTypeString])"
    by (simp add: matches_iff image_present_def text_present_def file_present_def id_defs)
  have tiff: "map_of safari_copy NSPasteboardTypeTIFF = Some ''II*''"
    by (simp add: safari_copy_def)
  show ?thesis
    by (simp add: script_eq parse_args_def main_loop_Cons Let_def undisturbed_def interfere_snd
        iteration_eq tick_body_def tick_simps ret_def snapshot_observe st
        obs [unfolded quiet_def] m tiff main_loop_Nil
        read_fails_def quiet_def gcc_trace_ok has_trace_match calls_simps sleep_accepts_def
        copy_found_tiff [where B = "''II*''"] del: main_loop.simps)
qed

text \<open>
  C9, amended. The poll interval is a float of seconds whose default is 1.0. The program
  makes no check of it and hands it to \<open>main\<close> as parsed. For every interval that
  \<open>time.sleep\<close> accepts (a number from 0, zero included, up to what fits 64 bits of
  nanoseconds; not an infinity, not not-a-number), and a script of any length with no
  Ctrl+C, the loop runs every pass and sleeps that interval once after each.
\<close>

theorem interval_is_not_checked:
  "poll_interval (parse_args d None) = Finite 1
   \<and> poll_interval (parse_args d (Some x)) = x
   \<and> (sleep_accepts (poll_interval (parse_args d iv)) \<and> (\<forall>e\<in>set envs. \<not> ctrl_c e) \<longrightarrow>
        fst (script d iv envs s) = Inr Continue
      \<and> filter is_sleep (trace (snd (script d iv envs s)))
          = filter is_sleep (trace s)
            @ replicate (length envs) (Sleep (poll_interval (parse_args d iv))))"
  by (auto simp add: script_eq main_loop_runs) (simp_all add: parse_args_def DEFAULT_POLL_INTERVAL_def)

theorem interval_is_not_checked_witness:
  "fst (script False (Some (Finite 0)) [undisturbed, undisturbed] (start safari_copy)) = Inr Continue
   \<and> filter is_sleep (trace (snd (script False (Some (Finite 0)) [undisturbed, undisturbed]
        (start safari_copy)))) = [Sleep (Finite 0), Sleep (Finite 0)]
   \<and> fst (script False None [undisturbed, undisturbed] (start safari_copy)) = Inr Continue
   \<and> filter is_sleep (trace (snd (script False None [undisturbed, undisturbed]
        (start safari_copy)))) = [Sleep (Finite 1), Sleep (Finite 1)]"
  using interval_is_not_checked [of False "Finite 0" "Some (Finite 0)" "[undisturbed, undisturbed]"
      "start safari_copy"]
    interval_is_not_checked [of False "Finite 0" None "[undisturbed, undisturbed]"
      "start safari_copy"]
  by (simp add: undisturbed_def start_def parse_args_def DEFAULT_POLL_INTERVAL_def
      sleep_accepts_def)

end
